theory Spec2Isabelle
  imports Complex_Main
begin

section \<open>PyLivestream: the stream plan of \<^verbatim>\<open>stream.py\<close>\<close>

subsection \<open>Python values and exceptions\<close>

text \<open>
  Every exception the module can raise is a value; a function that may raise returns
  \<open>error + 'a\<close>, with \<open>Inl\<close> the exception. Exceptions raised by the module itself carry
  their message and the \<^verbatim>\<open>ValueError\<close> of \<^verbatim>\<open>int\<close> the text it rejects; the other
  exceptions of the interpreter and of the standard library are only their class.
  \<open>OtherError\<close> stands for whatever a collaborator outside this module raises.
\<close>

datatype error =
    AssertionError string
  | ValueError string
  | IndexError
  | TypeError
  | UnboundLocalError
  | AttributeError
  | RuntimeError
  | OverflowError
  | NoSectionError
  | NoOptionError
  | OtherError string

text \<open>
  The resolution is a sequence of two items: strings when it is split from the
  configuration text, integers when it comes from the probe. The frame rate is an
  integer (\<^verbatim>\<open>getint\<close>) or a float (probe); a finite float is the rational it denotes.
\<close>

datatype pyval = PyStr string | PyInt int

datatype pynum = IntNum int | FloatNum rat

subsection \<open>The bitrate tables\<close>

text \<open>An \<^verbatim>\<open>OrderedDict\<close> is the list of its items, in insertion order.\<close>

definition BR30 :: "(int \<times> int) list" where
  "BR30 = [(240, 300), (360, 400), (480, 500), (540, 800),
           (720, 1800), (1080, 3000), (1440, 6000), (2160, 13000)]"

definition BR60 :: "(int \<times> int) list" where
  "BR60 = [(720, 2250), (1080, 4500), (1440, 9000), (2160, 20000)]"

definition keys :: "('k \<times> 'v) list \<Rightarrow> 'k list" where
  "keys d = map fst d"

definition values_of :: "('k \<times> 'v) list \<Rightarrow> 'v list" where
  "values_of d = map snd d"

subsection \<open>Library functions the module calls\<close>

text \<open>\<^verbatim>\<open>a[i]\<close> for an index that is not negative: out of range raises.\<close>

definition getitem :: "'a list \<Rightarrow> nat \<Rightarrow> error + 'a" where
  "getitem a i = (if i < length a then Inr (a ! i) else Inl IndexError)"

text \<open>Sequencing: the first exception ends the computation.\<close>

definition bind_err :: "error + 'a \<Rightarrow> ('a \<Rightarrow> error + 'b) \<Rightarrow> error + 'b" where
  "bind_err m f = (case m of Inl e \<Rightarrow> Inl e | Inr x \<Rightarrow> f x)"

text \<open>\<^verbatim>\<open>s.split(c)\<close> for a separator of one character, and \<^verbatim>\<open>sep.join(ws)\<close>.\<close>

fun split_on :: "char \<Rightarrow> string \<Rightarrow> string list" where
  "split_on c [] = [[]]"
| "split_on c (x # xs) =
     (if x = c then [] # split_on c xs
      else (case split_on c xs of [] \<Rightarrow> [[x]] | w # ws \<Rightarrow> (x # w) # ws))"

fun join :: "string \<Rightarrow> string list \<Rightarrow> string" where
  "join sep [] = []"
| "join sep [w] = w"
| "join sep (w # v # ws) = w @ sep @ join sep (v # ws)"

text \<open>
  \<^verbatim>\<open>bisect.bisect_left(a, x, lo, hi)\<close>: the loop
  \<^verbatim>\<open>while lo < hi: mid = (lo + hi) // 2; if a[mid] < x: lo = mid + 1 else: hi = mid\<close>,
  returning \<open>lo\<close>. It is called with \<open>lo = 0\<close> and \<open>hi = len(a)\<close>, so that every
  \<open>mid\<close> is in range.
\<close>

function bisect_left_from :: "int list \<Rightarrow> int \<Rightarrow> nat \<Rightarrow> nat \<Rightarrow> nat" where
  "bisect_left_from a x lo hi =
     (if lo < hi
      then (let mid = (lo + hi) div 2
            in if a ! mid < x then bisect_left_from a x (mid + 1) hi
               else bisect_left_from a x lo mid)
      else lo)"
  by pat_completeness auto
termination
  by (relation "measure (\<lambda>(a, x, lo, hi). hi - lo)") auto

declare bisect_left_from.simps [simp del]

definition bisect_left :: "int list \<Rightarrow> int \<Rightarrow> nat" where
  "bisect_left a x = bisect_left_from a x 0 (length a)"

subsection \<open>Decimal text and integers\<close>

text \<open>\<^verbatim>\<open>str(n)\<close> for an integer: its decimal digits, with a minus sign when negative.\<close>

definition digit_char :: "nat \<Rightarrow> char" where
  "digit_char d = ''0123456789'' ! d"

fun str_nat :: "nat \<Rightarrow> string" where
  "str_nat n = (if n < 10 then [digit_char n] else str_nat (n div 10) @ [digit_char (n mod 10)])"

declare str_nat.simps [simp del]

definition str_int :: "int \<Rightarrow> string" where
  "str_int i = (if i < 0 then CHR ''-'' # str_nat (nat (- i)) else str_nat (nat i))"

text \<open>
  \<^verbatim>\<open>s.strip()\<close> drops the whitespace at both ends. Characters are bytes here, so only the
  ASCII whitespace of \<^verbatim>\<open>str.isspace\<close> counts: the blank, the five controls from tab to
  carriage return, and the four separators \<open>0x1C\<close> to \<open>0x1F\<close>.
\<close>

definition is_space :: "char \<Rightarrow> bool" where
  "is_space c = (c \<in> set [CHR '' '', CHR 0x09, CHR 0x0A, CHR 0x0B, CHR 0x0C, CHR 0x0D,
                           CHR 0x1C, CHR 0x1D, CHR 0x1E, CHR 0x1F])"

definition strip :: "string \<Rightarrow> string" where
  "strip s = rev (dropWhile is_space (rev (dropWhile is_space s)))"

text \<open>
  \<^verbatim>\<open>int(s)\<close> for a string: the blank and the controls from tab to carriage return are
  dropped at both ends (the separators \<open>0x1C\<close> to \<open>0x1F\<close> are not), then come an optional
  sign and decimal digits, where single underscores may separate digits. Anything else
  raises \<^verbatim>\<open>ValueError\<close>. Only ASCII digits count.
\<close>

definition is_int_space :: "char \<Rightarrow> bool" where
  "is_int_space c = (c \<in> set [CHR '' '', CHR 0x09, CHR 0x0A, CHR 0x0B, CHR 0x0C, CHR 0x0D])"

definition strip_int :: "string \<Rightarrow> string" where
  "strip_int s = rev (dropWhile is_int_space (rev (dropWhile is_int_space s)))"

definition is_digit :: "char \<Rightarrow> bool" where
  "is_digit c = (let n = (of_char c :: nat) in 48 \<le> n \<and> n \<le> 57)"

definition digit_val :: "char \<Rightarrow> nat" where
  "digit_val c = of_char c - 48"

text \<open>
  \<open>parse_digits acc s\<close> reads the text after a digit: more digits, each possibly
  preceded by one underscore.
\<close>

fun parse_digits :: "nat \<Rightarrow> string \<Rightarrow> nat option" where
  "parse_digits acc [] = Some acc"
| "parse_digits acc [c] = (if is_digit c then Some (10 * acc + digit_val c) else None)"
| "parse_digits acc (c # d # cs) =
     (if is_digit c then parse_digits (10 * acc + digit_val c) (d # cs)
      else if c = CHR ''_'' \<and> is_digit d then parse_digits (10 * acc + digit_val d) cs
      else None)"

definition parse_nat :: "string \<Rightarrow> nat option" where
  "parse_nat s = (case s of [] \<Rightarrow> None
                  | c # cs \<Rightarrow> if is_digit c then parse_digits (digit_val c) cs else None)"

definition int_of_str :: "string \<Rightarrow> error + int" where
  "int_of_str s =
     (let t = strip_int s;
          r = (case t of
                 [] \<Rightarrow> None
               | c # cs \<Rightarrow>
                   if c = CHR ''-'' then map_option (\<lambda>n. - int n) (parse_nat cs)
                   else if c = CHR ''+'' then map_option int (parse_nat cs)
                   else map_option int (parse_nat t))
      in case r of None \<Rightarrow> Inl (ValueError s) | Some i \<Rightarrow> Inr i)"

text \<open>\<^verbatim>\<open>int(v)\<close> for an item of the resolution.\<close>

fun py_int :: "pyval \<Rightarrow> error + int" where
  "py_int (PyInt i) = Inr i"
| "py_int (PyStr s) = int_of_str s"

text \<open>\<^verbatim>\<open>str(v)\<close> for an item of the resolution.\<close>

fun py_str :: "pyval \<Rightarrow> string" where
  "py_str (PyInt i) = str_int i"
| "py_str (PyStr s) = s"

subsection \<open>The plan\<close>

text \<open>
  \<^verbatim>\<open>Stream.__init__\<close> stores its six arguments; \<^verbatim>\<open>osparam\<close> adds the configuration.
  A \<^verbatim>\<open>Path\<close> is the string it prints as. A field the configuration may leave out
  (\<^verbatim>\<open>fallback=None\<close>) is an option; so is \<open>origin\<close>, an attribute that only a
  screen capture sets. The attribute \<^verbatim>\<open>image\<close> is the field \<open>image_path\<close>.
\<close>

record Stream_args =
  ini :: string
  site :: string
  vidsource :: string
  image_path :: "string option"
  loop :: bool
  infn :: "string option"

record Stream = Stream_args +
  exe :: string
  probeexe :: string
  res :: "pyval list option"
  fps :: "pynum option"
  origin :: "string list option"
  audiofs :: string
  preset :: string
  timelimit :: "string option"
  videochan :: string
  audiochan :: "string option"
  vcap :: string
  acap :: "string option"
  hcam :: string
  video_kbps :: "int option"
  audio_bps :: string
  keyframe_sec :: int
  server :: "string option"
  key :: "string option"

subsection \<open>Truth values of Python objects\<close>

text \<open>\<^verbatim>\<open>None\<close>, \<open>0\<close> and the empty string are false; every \<^verbatim>\<open>Path\<close> is true.\<close>

definition truthy_int :: "int option \<Rightarrow> bool" where
  "truthy_int v = (case v of None \<Rightarrow> False | Some k \<Rightarrow> k \<noteq> 0)"

definition truthy_str :: "string option \<Rightarrow> bool" where
  "truthy_str v = (case v of None \<Rightarrow> False | Some s \<Rightarrow> s \<noteq> [])"

definition truthy_path :: "string option \<Rightarrow> bool" where
  "truthy_path v = (v \<noteq> None)"

subsection \<open>\<^verbatim>\<open>Stream.video_bitrate\<close>\<close>

text \<open>\<^verbatim>\<open>self.fps <= 30\<close>.\<close>

fun le_30 :: "pynum \<Rightarrow> bool" where
  "le_30 (IntNum i) = (i \<le> 30)"
| "le_30 (FloatNum r) = (r \<le> 30)"

text \<open>\<^verbatim>\<open>self.fps is None or self.fps <= 30\<close>.\<close>

definition low_fps :: "pynum option \<Rightarrow> bool" where
  "low_fps f = (case f of None \<Rightarrow> True | Some n \<Rightarrow> le_30 n)"

text \<open>
  Lines 162 to 166: the height \<open>x\<close>. When the resolution is \<^verbatim>\<open>None\<close> and the source is
  not a file, \<open>x\<close> is never bound and its use at the lookup raises.
\<close>

definition video_height :: "'a Stream_scheme \<Rightarrow> error + int" where
  "video_height s =
     (case res s of
        Some r \<Rightarrow> (case getitem r 1 of Inl e \<Rightarrow> Inl e | Inr v \<Rightarrow> py_int v)
      | None \<Rightarrow> if vidsource s = ''file'' then Inr 720 else Inl UnboundLocalError)"

text \<open>\<^verbatim>\<open>list(T.values())[bisect.bisect_left(list(T.keys()), x)]\<close>.\<close>

definition table_bitrate :: "(int \<times> int) list \<Rightarrow> int \<Rightarrow> error + int" where
  "table_bitrate T x = getitem (values_of T) (bisect_left (keys T) x)"

definition video_bitrate :: "'a Stream_scheme \<Rightarrow> error + 'a Stream_scheme" where
  "video_bitrate s =
     (if truthy_int (video_kbps s) then Inr s
      else case video_height s of
             Inl e \<Rightarrow> Inl e
           | Inr x \<Rightarrow>
               if low_fps (fps s)
               then (case table_bitrate BR30 x of
                       Inl e \<Rightarrow> Inl e
                     | Inr v \<Rightarrow> Inr (s\<lparr>video_kbps := Some v\<rparr>))
               else (case table_bitrate BR60 x of
                       Inl e \<Rightarrow> Inl e
                     | Inr v \<Rightarrow> Inr (s\<lparr>video_kbps := Some v\<rparr>)))"

subsection \<open>The host and the configuration file\<close>

text \<open>
  What the module reads from outside is a parameter: the platform name, the home
  directory expansion of a path (\<^verbatim>\<open>Path.expanduser\<close>, which raises \<^verbatim>\<open>RuntimeError\<close> when the
  home directory cannot be found), the files, and the three functions of the module
  \<^verbatim>\<open>sio\<close>, whose code is not part of \<^verbatim>\<open>stream.py\<close>. A configuration file that is a
  regular file maps to what \<^verbatim>\<open>ConfigParser.read\<close> makes of it: an exception or its
  sections, each with the options \<^verbatim>\<open>get\<close> finds there. \<open>str_float r\<close> is \<^verbatim>\<open>str\<close> of the
  float nearest to \<open>r\<close>.
\<close>

type_synonym config = "string \<rightharpoonup> (string \<rightharpoonup> string)"

record host =
  platform :: string
  expanduser :: "string \<Rightarrow> error + string"
  ini_files :: "string \<rightharpoonup> (error + config)"
  text_files :: "string \<rightharpoonup> (error + string)"
  getexe :: "string \<Rightarrow> error + (string \<times> string)"
  get_resolution :: "string option \<Rightarrow> string \<Rightarrow> error + (int \<times> int) option"
  get_framerate :: "string option \<Rightarrow> string \<Rightarrow> error + rat option"
  str_float :: "rat \<Rightarrow> string"

text \<open>\<^verbatim>\<open>C.get(section, option)\<close>, \<^verbatim>\<open>C.get(section, option, fallback=None)\<close> and \<^verbatim>\<open>getint\<close>.\<close>

definition cfg_get :: "config \<Rightarrow> string \<Rightarrow> string \<Rightarrow> error + string" where
  "cfg_get C sec opt =
     (case C sec of
        None \<Rightarrow> Inl NoSectionError
      | Some d \<Rightarrow> (case d opt of None \<Rightarrow> Inl NoOptionError | Some v \<Rightarrow> Inr v))"

definition cfg_get_fallback :: "config \<Rightarrow> string \<Rightarrow> string \<Rightarrow> string option" where
  "cfg_get_fallback C sec opt = (case C sec of None \<Rightarrow> None | Some d \<Rightarrow> d opt)"

definition cfg_getint :: "config \<Rightarrow> string \<Rightarrow> string \<Rightarrow> error + int" where
  "cfg_getint C sec opt = bind_err (cfg_get C sec opt) int_of_str"

definition cfg_getint_fallback :: "config \<Rightarrow> string \<Rightarrow> string \<Rightarrow> error + int option" where
  "cfg_getint_fallback C sec opt =
     (case cfg_get_fallback C sec opt of
        None \<Rightarrow> Inr None
      | Some v \<Rightarrow> bind_err (int_of_str v) (\<lambda>i. Inr (Some i)))"

subsection \<open>\<^verbatim>\<open>Stream.__init__\<close> and \<^verbatim>\<open>Stream.osparam\<close>\<close>

definition init :: "host \<Rightarrow> string \<Rightarrow> string \<Rightarrow> string \<Rightarrow> string option \<Rightarrow> bool \<Rightarrow>
    string option \<Rightarrow> error + Stream_args" where
  "init h ini0 site0 vidsource0 image0 loop0 infn0 =
     bind_err (expanduser h ini0) (\<lambda>ini1.
     Inr \<lparr>ini = ini1, site = site0, vidsource = vidsource0, image_path = image0,
          loop = loop0, infn = infn0\<rparr>)"

text \<open>Lines 60 to 75: resolution, frame rate and origin, by the kind of source.\<close>

definition source_param :: "host \<Rightarrow> config \<Rightarrow> Stream_args \<Rightarrow> string \<Rightarrow>
    error + (pyval list option \<times> pynum option \<times> string list option)" where
  "source_param h C a probe =
     (if vidsource a = ''camera'' then
        bind_err (cfg_get C (site a) ''webcam_res'') (\<lambda>r.
        bind_err (cfg_getint C (site a) ''webcam_fps'') (\<lambda>f.
        Inr (Some (map PyStr (split_on (CHR ''x'') r)), Some (IntNum f), None)))
      else if vidsource a = ''screen'' then
        bind_err (cfg_get C (site a) ''screencap_res'') (\<lambda>r.
        bind_err (cfg_getint C (site a) ''screencap_fps'') (\<lambda>f.
        bind_err (cfg_get C (site a) ''screencap_origin'') (\<lambda>og.
        Inr (Some (map PyStr (split_on (CHR ''x'') r)), Some (IntNum f),
             Some (split_on (CHR '','') og)))))
      else if vidsource a = ''file'' then
        bind_err (get_resolution h (infn a) probe) (\<lambda>r.
        bind_err (get_framerate h (infn a) probe) (\<lambda>f.
        Inr (map_option (\<lambda>(w, ht). [PyInt w, PyInt ht]) r, map_option FloatNum f, None)))
      else Inl (ValueError (''unknown video source '' @ vidsource a)))"

text \<open>Lines 94 to 100: the stream key.\<close>

definition read_key :: "host \<Rightarrow> config \<Rightarrow> string \<Rightarrow> error + string option" where
  "read_key h C st =
     (let keyfn = cfg_get_fallback C st ''key''
      in if \<not> truthy_str keyfn then Inr None
         else bind_err (expanduser h (the keyfn)) (\<lambda>key1.
                case text_files h key1 of
                  None \<Rightarrow> Inr keyfn
                | Some t \<Rightarrow> bind_err t (\<lambda>txt. Inr (Some (strip txt)))))"

text \<open>
  \<^verbatim>\<open>osparam\<close>, statement by statement. The two log messages (Wayland, and the assumed
  720 lines of \<^verbatim>\<open>video_bitrate\<close>) change no value and are left out.
\<close>

definition osparam :: "host \<Rightarrow> Stream_args \<Rightarrow> error + Stream" where
  "osparam h a =
     (case ini_files h (ini a) of
        None \<Rightarrow> Inl (AssertionError (ini a @ '' not found.''))
      | Some parsed \<Rightarrow>
        bind_err parsed (\<lambda>C.
        if C (site a) = None then Inl (AssertionError (site a @ '' not found: '' @ ini a))
        else
        bind_err (getexe h (case cfg_get_fallback C (platform h) ''exe'' of
                              None \<Rightarrow> ''ffmpeg'' | Some v \<Rightarrow> v)) (\<lambda>(exe0, probe0).
        bind_err (source_param h C a probe0) (\<lambda>(res0, fps0, origin0).
        bind_err (cfg_get C (site a) ''audiofs'') (\<lambda>audiofs0.
        bind_err (cfg_get C (site a) ''preset'') (\<lambda>preset0.
        bind_err (cfg_get C (platform h) ''videochan'') (\<lambda>videochan0.
        bind_err (cfg_get C (platform h) ''vcap'') (\<lambda>vcap0.
        bind_err (cfg_get C (platform h) ''hcam'') (\<lambda>hcam0.
        bind_err (cfg_getint_fallback C (site a) ''video_kbps'') (\<lambda>video_kbps0.
        bind_err (cfg_get C (site a) ''audio_bps'') (\<lambda>audio_bps0.
        bind_err (cfg_getint C (site a) ''keyframe_sec'') (\<lambda>keyframe_sec0.
        bind_err (read_key h C (site a)) (\<lambda>key0.
        Inr (Stream_args.extend a
              (Stream.fields exe0 probe0 res0 fps0 origin0 audiofs0 preset0
                 (cfg_get_fallback C (site a) ''timelimit'') videochan0
                 (cfg_get_fallback C (platform h) ''audiochan'') vcap0
                 (cfg_get_fallback C (platform h) ''acap'') hcam0 video_kbps0 audio_bps0
                 keyframe_sec0 (cfg_get_fallback C (site a) ''server'') key0)))))))))))))))"

subsection \<open>The argument fragments\<close>

text \<open>\<^verbatim>\<open>str\<close> of a frame rate and of a bitrate that may be \<^verbatim>\<open>None\<close>.\<close>

fun str_num :: "host \<Rightarrow> pynum \<Rightarrow> string" where
  "str_num h (IntNum i) = str_int i"
| "str_num h (FloatNum r) = str_float h r"

definition str_fps :: "host \<Rightarrow> pynum option \<Rightarrow> string" where
  "str_fps h f = (case f of None \<Rightarrow> ''None'' | Some n \<Rightarrow> str_num h n)"

definition str_kbps :: "int option \<Rightarrow> string" where
  "str_kbps v = (case v of None \<Rightarrow> ''None'' | Some k \<Rightarrow> str_int k)"

text \<open>
  \<^verbatim>\<open>keyframe_sec * fps\<close>: an integer times a float is a float. The integer is converted
  first, which raises \<^verbatim>\<open>OverflowError\<close> when it rounds to a magnitude beyond the largest
  double, that is from \<open>2^1024 - 2^970\<close> on.
\<close>

definition float_overflow :: "int \<Rightarrow> bool" where
  "float_overflow k = (2 ^ 1024 - 2 ^ 970 \<le> \<bar>k\<bar>)"

fun times_num :: "int \<Rightarrow> pynum \<Rightarrow> error + pynum" where
  "times_num k (IntNum i) = Inr (IntNum (k * i))"
| "times_num k (FloatNum r) =
     (if float_overflow k then Inl OverflowError else Inr (FloatNum (of_int k * r)))"

definition screengrab :: "host \<Rightarrow> 'a Stream_scheme \<Rightarrow> error + string list" where
  "screengrab h s =
     (let vid1 = [''-f'', vcap s, ''-r'', str_fps h (fps s)];
          vid1 = (case res s of
                    None \<Rightarrow> vid1
                  | Some r \<Rightarrow> vid1 @ [''-s'', join ''x'' (map py_str r)])
      in if platform h = ''linux'' then
           (case origin s of
              None \<Rightarrow> Inl AttributeError
            | Some og \<Rightarrow>
                bind_err (getitem og 0) (\<lambda>o0.
                bind_err (getitem og 1) (\<lambda>o1.
                Inr (vid1 @ [''-i'', '':0.0+'' @ o0 @ '','' @ o1]))))
         else if platform h = ''win32'' then
           (case origin s of
              None \<Rightarrow> Inl AttributeError
            | Some og \<Rightarrow>
                bind_err (getitem og 0) (\<lambda>o0.
                bind_err (getitem og 1) (\<lambda>o1.
                Inr (vid1 @ [''-offset_x'', o0, ''-offset_y'', o1, ''-i'', videochan s]))))
         else if platform h = ''darwin'' then Inr (vid1 @ [''-i'', ''0:0''])
         else Inr vid1)"

definition webcam :: "host \<Rightarrow> 'a Stream_scheme \<Rightarrow> string list" where
  "webcam h s = [''-f'', hcam s, ''-r'', str_fps h (fps s), ''-i'', videochan s]"

definition filein :: "host \<Rightarrow> 'a Stream_scheme \<Rightarrow> error + string list" where
  "filein h s =
     (case infn s of
        None \<Rightarrow> Inl (AssertionError [])
      | Some p \<Rightarrow>
          bind_err (expanduser h p) (\<lambda>fn.
            let vid1 = (if truthy_path (image_path s) then [''-loop'', ''1''] else [''-re'']);
                vid1 = (if loop s then vid1 @ [''-stream_loop'', ''-1''] else vid1 @ []);
                vid1 = (if truthy_path (image_path s) then vid1 @ [''-i'', the (image_path s)]
                        else vid1)
            in Inr (vid1 @ [''-i'', fn])))"

definition videostream :: "host \<Rightarrow> 'a Stream_scheme \<Rightarrow> error + (string list \<times> string list)" where
  "videostream h s =
     bind_err
       (if vidsource s = ''screen'' then screengrab h s
        else if vidsource s = ''camera'' then Inr (webcam h s)
        else if vidsource s = ''file'' then filein h s
        else Inl (ValueError (''unknown vidsource '' @ vidsource s)))
       (\<lambda>vid1.
          let vid2 = [''-c:v'', ''libx264'', ''-pix_fmt'', ''yuv420p''] in
          if truthy_path (image_path s) then Inr (vid1, vid2 @ [''-tune'', ''stillimage''])
          else
            (let fps0 = (case fps s of None \<Rightarrow> FloatNum 30 | Some f \<Rightarrow> f)
             in bind_err (times_num (keyframe_sec s) fps0) (\<lambda>gop.
                Inr (vid1, vid2 @ [''-preset'', preset s,
                                   ''-b:v'', str_kbps (video_kbps s) @ ''k'',
                                   ''-g'', str_num h gop]))))"

text \<open>The guard of both audio methods: any of the three false makes the stream silent.\<close>

definition no_audio :: "'a Stream_scheme \<Rightarrow> bool" where
  "no_audio s = (audio_bps s = [] \<or> \<not> truthy_str (acap s) \<or> \<not> truthy_str (audiochan s))"

definition audiostream :: "'a Stream_scheme \<Rightarrow> string list" where
  "audiostream s =
     (if no_audio s then []
      else if \<not> vidsource s = ''file'' then [''-f'', the (acap s), ''-i'', the (audiochan s)]
      else [])"

definition audiocomp :: "'a Stream_scheme \<Rightarrow> string list" where
  "audiocomp s =
     (if no_audio s then []
      else [''-c:a'', ''aac'', ''-b:a'', audio_bps s, ''-ar'', audiofs s])"

text \<open>
  \<^verbatim>\<open>buffer\<close>: with no bitrate the first format string prints \<^verbatim>\<open>None\<close>, and the product
  \<^verbatim>\<open>2*self.video_kbps\<close> of the second raises.
\<close>

definition buffer :: "'a Stream_scheme \<Rightarrow> string \<Rightarrow> error + string list" where
  "buffer s server0 =
     (let buf = [''-threads'', ''0''] in
      bind_err
        (if \<not> truthy_path (image_path s) then
           (case video_kbps s of
              None \<Rightarrow> Inl TypeError
            | Some k \<Rightarrow> Inr (buf @ [''-maxrate'', str_int k @ ''k'',
                                     ''-bufsize'', str_int (2 * k) @ ''k'']))
         else Inr (buf @ [''-shortest'']))
        (\<lambda>buf. if server0 = ''-'' then Inr (buf @ [''-f'', ''null''])
                else Inr (buf @ [''-f'', ''flv''])))"

subsection \<open>\<^verbatim>\<open>unify_streams\<close>\<close>

text \<open>
  \<^verbatim>\<open>min(range(len(vid_bw)), key=vid_bw.__getitem__)\<close>: the built-in keeps the first item
  and replaces it by a later one only when that one's key is smaller. Comparing with
  \<^verbatim>\<open>None\<close> raises.
\<close>

fun lt_kbps :: "int option \<Rightarrow> int option \<Rightarrow> error + bool" where
  "lt_kbps (Some a) (Some b) = Inr (a < b)"
| "lt_kbps _ _ = Inl TypeError"

fun min_from :: "int option list \<Rightarrow> nat \<Rightarrow> nat \<Rightarrow> int option \<Rightarrow> error + nat" where
  "min_from [] i best bv = Inr best"
| "min_from (v # vs) i best bv =
     bind_err (lt_kbps v bv) (\<lambda>b.
       if b then min_from vs (i + 1) i v else min_from vs (i + 1) best bv)"

text \<open>The function is at module level and never uses its first parameter \<open>self\<close>.\<close>

definition unify_streams :: "'b \<Rightarrow> 'a Stream_scheme list \<Rightarrow> error + nat option" where
  "unify_streams self streams =
     (if streams = [] then Inr None
      else (let vid_bw = map video_kbps streams
            in bind_err (min_from (tl vid_bw) 1 0 (hd vid_bw)) (\<lambda>i. Inr (Some i))))"

subsection \<open>A sample host and sample plans\<close>

text \<open>
  A Linux host with one configuration file of three sites: \<open>youtube\<close> fixes no bitrate,
  \<open>facebook\<close> fixes 2500 kbps and \<open>periscope\<close> writes the bitrate \<open>0\<close>. Its one user has
  the home directory \<^verbatim>\<open>/home/user\<close>; the home of any other user is not found. The sample
  \<open>str_float\<close> is exact on the whole-numbered rates used here.
\<close>

definition site_options :: "string \<rightharpoonup> string" where
  "site_options =
     [''webcam_res'' \<mapsto> ''1280x720'', ''webcam_fps'' \<mapsto> ''30'',
      ''screencap_res'' \<mapsto> ''1920x1080'', ''screencap_fps'' \<mapsto> ''60'',
      ''screencap_origin'' \<mapsto> ''0,0'', ''audiofs'' \<mapsto> ''44100'',
      ''preset'' \<mapsto> ''veryfast'', ''audio_bps'' \<mapsto> ''128k'', ''keyframe_sec'' \<mapsto> ''2'',
      ''server'' \<mapsto> ''rtmp://a.rtmp.youtube.com/live2/'', ''key'' \<mapsto> ''~/stream.key'']"

definition sample_ini :: config where
  "sample_ini =
     [''youtube'' \<mapsto> site_options,
      ''facebook'' \<mapsto> site_options(''video_kbps'' \<mapsto> ''2500''),
      ''periscope'' \<mapsto> site_options(''video_kbps'' \<mapsto> ''0''),
      ''linux'' \<mapsto> [''exe'' \<mapsto> ''ffmpeg'', ''videochan'' \<mapsto> ''/dev/video0'',
                    ''audiochan'' \<mapsto> ''default'', ''vcap'' \<mapsto> ''x11grab'',
                    ''acap'' \<mapsto> ''pulse'', ''hcam'' \<mapsto> ''v4l2'']]"

definition sample_host :: host where
  "sample_host =
     \<lparr>platform = ''linux'',
      expanduser = (\<lambda>p. if p = ''~'' \<or> take 2 p = ''~/'' then Inr (''/home/user'' @ drop 1 p)
                        else if take 1 p = ''~'' then Inl RuntimeError
                        else Inr p),
      ini_files = [''/home/user/pylivestream.ini'' \<mapsto> Inr sample_ini],
      text_files = [''/home/user/stream.key'' \<mapsto> Inr (''abcd-1234'' @ [CHR 0x0A])],
      getexe = (\<lambda>e. Inr (e, ''ffprobe'')),
      get_resolution = (\<lambda>f p. case f of None \<Rightarrow> Inl (OtherError ''no file'')
                                 | Some _ \<Rightarrow> Inr (Some (1920, 1080))),
      get_framerate = (\<lambda>f p. case f of None \<Rightarrow> Inl (OtherError ''no file'')
                                | Some _ \<Rightarrow> Inr (Some 60)),
      str_float = (\<lambda>r. str_int \<lfloor>r\<rfloor> @ ''.0'')\<rparr>"

text \<open>The arguments \<^verbatim>\<open>Stream('~/pylivestream.ini', st, src)\<close> stores on that host.\<close>

definition sample_args :: "string \<Rightarrow> string \<Rightarrow> Stream_args" where
  "sample_args st src =
     \<lparr>ini = ''/home/user/pylivestream.ini'', site = st, vidsource = src, image_path = None,
      loop = False, infn = None\<rparr>"

text \<open>The plan \<^verbatim>\<open>osparam\<close> builds for the camera and the site \<open>youtube\<close>.\<close>

definition camera_plan :: Stream where
  "camera_plan =
     \<lparr>ini = ''/home/user/pylivestream.ini'', site = ''youtube'', vidsource = ''camera'',
      image_path = None, loop = False, infn = None,
      exe = ''ffmpeg'', probeexe = ''ffprobe'',
      res = Some [PyStr ''1280'', PyStr ''720''], fps = Some (IntNum 30), origin = None,
      audiofs = ''44100'', preset = ''veryfast'', timelimit = None,
      videochan = ''/dev/video0'', audiochan = Some ''default'', vcap = ''x11grab'',
      acap = Some ''pulse'', hcam = ''v4l2'', video_kbps = None, audio_bps = ''128k'',
      keyframe_sec = 2, server = Some ''rtmp://a.rtmp.youtube.com/live2/'',
      key = Some ''abcd-1234''\<rparr>"

text \<open>A file replayed in a loop, with the resolution and rate the probe reports.\<close>

definition file_plan :: Stream where
  "file_plan =
     camera_plan\<lparr>vidsource := ''file'', loop := True, infn := Some ''~/clip.mp4'',
                  res := Some [PyInt 1920, PyInt 1080], fps := Some (FloatNum 60)\<rparr>"

subsection \<open>Vocabulary of the properties\<close>

text \<open>The number a frame rate stands for.\<close>

fun num_val :: "pynum \<Rightarrow> rat" where
  "num_val (IntNum i) = of_int i"
| "num_val (FloatNum r) = r"

section \<open>Properties\<close>

subsection \<open>The table lookup\<close>

text \<open>
  On a sorted list the binary search returns the insertion point: everything before it
  is smaller than \<open>x\<close>, nothing from it on is.
\<close>

lemma bisect_left_from_spec:
  assumes "sorted a" "lo \<le> hi" "hi \<le> length a"
    "\<forall>i<lo. a ! i < x" "\<forall>i. hi \<le> i \<and> i < length a \<longrightarrow> x \<le> a ! i"
  shows "lo \<le> bisect_left_from a x lo hi \<and> bisect_left_from a x lo hi \<le> hi \<and>
         (\<forall>i<bisect_left_from a x lo hi. a ! i < x) \<and>
         (\<forall>i. bisect_left_from a x lo hi \<le> i \<and> i < length a \<longrightarrow> x \<le> a ! i)"
  using assms
proof (induction a x lo hi rule: bisect_left_from.induct)
  case (1 a x lo hi)
  show ?case
  proof (cases "lo < hi")
    case False
    then have "bisect_left_from a x lo hi = lo"
      by (subst bisect_left_from.simps) simp
    with "1.prems" False show ?thesis by simp
  next
    case True
    define mid where "mid = (lo + hi) div 2"
    have mid: "lo \<le> mid" "mid < hi" using True by (auto simp: mid_def)
    show ?thesis
    proof (cases "a ! mid < x")
      case lt: True
      have below: "\<forall>i<mid + 1. a ! i < x"
      proof (intro allI impI)
        fix i assume "i < mid + 1"
        then have "i \<le> mid" by simp
        with \<open>sorted a\<close> mid "1.prems"(3) have "a ! i \<le> a ! mid"
          by (simp add: sorted_iff_nth_mono)
        with lt show "a ! i < x" by simp
      qed
      from "1.IH"(1)[OF True mid_def lt "1.prems"(1) _ "1.prems"(3) below "1.prems"(5)] mid
      have "mid + 1 \<le> bisect_left_from a x (mid + 1) hi \<and>
         bisect_left_from a x (mid + 1) hi \<le> hi \<and>
         (\<forall>i<bisect_left_from a x (mid + 1) hi. a ! i < x) \<and>
         (\<forall>i. bisect_left_from a x (mid + 1) hi \<le> i \<and> i < length a \<longrightarrow> x \<le> a ! i)"
        by simp
      moreover have "bisect_left_from a x lo hi = bisect_left_from a x (mid + 1) hi"
        using True lt by (subst bisect_left_from.simps) (simp add: mid_def Let_def)
      ultimately show ?thesis using mid by simp
    next
      case ge: False
      have above: "\<forall>i. mid \<le> i \<and> i < length a \<longrightarrow> x \<le> a ! i"
      proof (intro allI impI)
        fix i assume "mid \<le> i \<and> i < length a"
        with \<open>sorted a\<close> have "a ! mid \<le> a ! i"
          by (simp add: sorted_iff_nth_mono)
        with ge show "x \<le> a ! i" by simp
      qed
      from "1.IH"(2)[OF True mid_def ge "1.prems"(1) _ _ "1.prems"(4) above] mid "1.prems"(3)
      have "lo \<le> bisect_left_from a x lo mid \<and> bisect_left_from a x lo mid \<le> mid \<and>
         (\<forall>i<bisect_left_from a x lo mid. a ! i < x) \<and>
         (\<forall>i. bisect_left_from a x lo mid \<le> i \<and> i < length a \<longrightarrow> x \<le> a ! i)"
        by simp
      moreover have "bisect_left_from a x lo hi = bisect_left_from a x lo mid"
        using True ge by (subst bisect_left_from.simps) (simp add: mid_def Let_def)
      ultimately show ?thesis using mid by simp
    qed
  qed
qed

lemma bisect_left_spec:
  assumes "sorted a"
  shows "bisect_left a x \<le> length a"
    and "\<And>i. i < bisect_left a x \<Longrightarrow> a ! i < x"
    and "\<And>i. bisect_left a x \<le> i \<Longrightarrow> i < length a \<Longrightarrow> x \<le> a ! i"
  using bisect_left_from_spec[OF assms, of 0 "length a" x]
  by (simp_all add: bisect_left_def)

text \<open>That index is unique.\<close>

lemma bisect_left_eqI:
  assumes "sorted a" "j \<le> length a" "\<And>i. i < j \<Longrightarrow> a ! i < x"
    "\<And>i. j \<le> i \<Longrightarrow> i < length a \<Longrightarrow> x \<le> a ! i"
  shows "bisect_left a x = j"
proof (rule ccontr)
  assume ne: "bisect_left a x \<noteq> j"
  let ?r = "bisect_left a x"
  show False
  proof (cases "?r < j")
    case True
    then have "a ! ?r < x" using assms(3) by simp
    moreover have "x \<le> a ! ?r"
      using bisect_left_spec(3)[OF assms(1), of x ?r] True assms(2) by simp
    ultimately show False by simp
  next
    case False
    with ne have lt: "j < ?r" by simp
    then have "a ! j < x" using bisect_left_spec(2)[OF assms(1)] by simp
    moreover have "x \<le> a ! j"
      using assms(4)[of j] lt bisect_left_spec(1)[OF assms(1), of x] by simp
    ultimately show False by simp
  qed
qed

text \<open>The tier a height falls into, and no tier above the last key.\<close>

lemma table_bitrate_tier:
  assumes "sorted (keys T)" "j < length T"
    "\<And>i. i < j \<Longrightarrow> fst (T ! i) < x" "x \<le> fst (T ! j)"
  shows "table_bitrate T x = Inr (snd (T ! j))"
proof -
  have "bisect_left (keys T) x = j"
  proof (rule bisect_left_eqI[OF assms(1)])
    show "j \<le> length (keys T)" using assms(2) by (simp add: keys_def)
    show "keys T ! i < x" if "i < j" for i
      using that assms(2,3) by (simp add: keys_def)
    show "x \<le> keys T ! i" if "j \<le> i" "i < length (keys T)" for i
    proof -
      have "keys T ! j \<le> keys T ! i"
        using assms(1) that by (simp add: sorted_iff_nth_mono)
      then show ?thesis using assms(2,4) by (simp add: keys_def)
    qed
  qed
  then show ?thesis using assms(2) by (simp add: table_bitrate_def getitem_def values_of_def)
qed

lemma table_bitrate_above:
  assumes "sorted (keys T)" "\<And>k. k \<in> set (keys T) \<Longrightarrow> k < x"
  shows "table_bitrate T x = Inl IndexError"
proof -
  have "bisect_left (keys T) x = length (keys T)"
    by (rule bisect_left_eqI[OF assms(1)]) (simp_all add: assms(2))
  then show ?thesis by (simp add: table_bitrate_def getitem_def values_of_def keys_def)
qed

lemma table_bitrate_exact:
  assumes "sorted_wrt (<) (keys T)" "(k, v) \<in> set T"
  shows "table_bitrate T k = Inr v"
proof -
  from assms(2) obtain j where j: "j < length T" "T ! j = (k, v)"
    by (auto simp: in_set_conv_nth)
  have "fst (T ! i) < k" if "i < j" for i
    using sorted_wrt_nth_less[OF assms(1), of i j] that j by (simp add: keys_def)
  moreover have "sorted (keys T)" using assms(1) by (simp add: strict_sorted_iff)
  ultimately show ?thesis using table_bitrate_tier[of T j k] j by simp
qed

lemma table_bitrate_between:
  assumes "sorted_wrt (<) (keys T)" "i + 1 < length T" "fst (T ! i) < x"
    "x \<le> fst (T ! (i + 1))"
  shows "table_bitrate T x = Inr (snd (T ! (i + 1)))"
proof -
  have s: "sorted (keys T)" using assms(1) by (simp add: strict_sorted_iff)
  have "fst (T ! m) < x" if "m < i + 1" for m
  proof -
    have "keys T ! m \<le> keys T ! i"
      using s that assms(2) by (simp add: sorted_iff_nth_mono keys_def)
    then show ?thesis using assms(2,3) that by (simp add: keys_def)
  qed
  then show ?thesis using table_bitrate_tier[OF s assms(2) _ assms(4)] by simp
qed

lemma sorted_BR30: "sorted_wrt (<) (keys BR30)"
  by (simp add: BR30_def keys_def)

lemma sorted_BR60: "sorted_wrt (<) (keys BR60)"
  by (simp add: BR60_def keys_def)

subsection \<open>Facts about the sample plans\<close>

lemma init_sample:
  "init sample_host ''~/pylivestream.ini'' st src None False None = Inr (sample_args st src)"
  by (simp add: init_def sample_host_def sample_args_def bind_err_def)

lemma osparam_camera: "osparam sample_host (sample_args ''youtube'' ''camera'') = Inr camera_plan"
  by code_simp

lemma height_720: "video_height camera_plan = Inr 720"
  by code_simp

lemma height_500:
  "video_height (camera_plan\<lparr>res := Some [PyStr ''960'', PyStr ''500'']\<rparr>) = Inr 500"
  by code_simp

lemma height_1080: "video_height file_plan = Inr 1080"
  by code_simp

lemma height_2161:
  "video_height (camera_plan\<lparr>res := Some [PyStr ''3840'', PyStr ''2161'']\<rparr>) = Inr 2161"
  by code_simp

subsection \<open>Bitrate selection\<close>

text \<open>Without an override and with a known height, the step is one table lookup.\<close>

lemma video_bitrate_lookup:
  assumes "\<not> truthy_int (video_kbps s)" "video_height s = Inr x"
  shows "video_bitrate s =
           bind_err (table_bitrate (if low_fps (fps s) then BR30 else BR60) x)
             (\<lambda>v. Inr (s\<lparr>video_kbps := Some v\<rparr>))"
  using assms by (simp add: video_bitrate_def bind_err_def)

lemma sorted_selected: "sorted_wrt (<) (keys (if b then BR30 else BR60))"
  by (simp add: sorted_BR30 sorted_BR60)

text \<open>
  Claim C1. Let a plan have no bitrate override and height \<open>x\<close>, and let \<open>T\<close> be the table
  its frame rate selects. If \<open>x\<close> is a key of \<open>T\<close>, the selection fills in exactly that
  key's bitrate. If \<open>x\<close> lies strictly between two neighbouring keys of \<open>T\<close>, it fills in
  the bitrate of the higher one.
\<close>

theorem video_bitrate_left_bisect:
  assumes "\<not> truthy_int (video_kbps s)" and "video_height s = Inr x"
    and "T = (if low_fps (fps s) then BR30 else BR60)"
  shows "((x, v) \<in> set T \<longrightarrow> video_bitrate s = Inr (s\<lparr>video_kbps := Some v\<rparr>)) \<and>
         (i + 1 < length T \<and> fst (T ! i) < x \<and> x < fst (T ! (i + 1)) \<longrightarrow>
            video_bitrate s = Inr (s\<lparr>video_kbps := Some (snd (T ! (i + 1)))\<rparr>))"
proof -
  have T: "sorted_wrt (<) (keys T)" unfolding assms(3) by (rule sorted_selected)
  have vb: "video_bitrate s =
              bind_err (table_bitrate T x) (\<lambda>v. Inr (s\<lparr>video_kbps := Some v\<rparr>))"
    unfolding assms(3) by (rule video_bitrate_lookup[OF assms(1,2)])
  have "video_bitrate s = Inr (s\<lparr>video_kbps := Some v\<rparr>)" if "(x, v) \<in> set T"
    using table_bitrate_exact[OF T that] by (simp add: vb bind_err_def)
  moreover have "video_bitrate s = Inr (s\<lparr>video_kbps := Some (snd (T ! (i + 1)))\<rparr>)"
    if "i + 1 < length T" "fst (T ! i) < x" "x < fst (T ! (i + 1))"
    using table_bitrate_between[OF T that(1,2)] that(3) by (simp add: vb bind_err_def)
  ultimately show ?thesis by blast
qed

text \<open>
  At the sample camera plan (720 lines, 30 frames per second) the key 720 gives 1800; at
  500 lines, between the keys 480 and 540, the selection gives the 800 of the key 540.
\<close>

theorem video_bitrate_left_bisect_witness:
  "\<not> truthy_int (video_kbps camera_plan) \<and> video_height camera_plan = Inr 720 \<and>
   low_fps (fps camera_plan) \<and> (720, 1800) \<in> set BR30 \<and>
   video_bitrate camera_plan = Inr (camera_plan\<lparr>video_kbps := Some 1800\<rparr>) \<and>
   video_height (camera_plan\<lparr>res := Some [PyStr ''960'', PyStr ''500'']\<rparr>) = Inr 500 \<and>
   fst (BR30 ! 2) < 500 \<and> 500 < fst (BR30 ! 3) \<and>
   video_bitrate (camera_plan\<lparr>res := Some [PyStr ''960'', PyStr ''500'']\<rparr>) =
     Inr (camera_plan\<lparr>res := Some [PyStr ''960'', PyStr ''500''], video_kbps := Some 800\<rparr>)"
proof -
  have a: "\<not> truthy_int (video_kbps camera_plan)"
    by (simp add: camera_plan_def truthy_int_def)
  have b: "low_fps (fps camera_plan)"
    by (simp add: camera_plan_def low_fps_def)
  have a': "\<not> truthy_int (video_kbps (camera_plan\<lparr>res := Some [PyStr ''960'', PyStr ''500'']\<rparr>))"
    by (simp add: camera_plan_def truthy_int_def)
  have b': "BR30 = (if low_fps (fps (camera_plan\<lparr>res := Some [PyStr ''960'', PyStr ''500'']\<rparr>))
                    then BR30 else BR60)"
    by (simp add: camera_plan_def low_fps_def)
  have c: "(720, 1800) \<in> set BR30" "fst (BR30 ! 2) < 500" "500 < fst (BR30 ! 3)"
    "snd (BR30 ! (2 + 1)) = 800" "2 + 1 < length BR30"
    by (simp_all add: BR30_def)
  from b have b0: "BR30 = (if low_fps (fps camera_plan) then BR30 else BR60)" by simp
  show ?thesis
    using video_bitrate_left_bisect[OF a height_720 b0, of 1800 0]
      video_bitrate_left_bisect[OF a' height_500 b', of 0 2] a b c height_720 height_500
    by simp
qed

text \<open>
  Claim C2 asks that a height above the largest key 2160 resolves to the bitrate of the
  last tier. The code does not: the insertion point is then the length of the table, and
  indexing the list of values there raises \<^verbatim>\<open>IndexError\<close>. For every plan without an
  override whose height exceeds 2160 the selection raises, at either frame rate.
\<close>

theorem video_bitrate_above_table:
  assumes "\<not> truthy_int (video_kbps s)" "video_height s = Inr x" "2160 < x"
  shows "video_bitrate s = Inl IndexError"
proof -
  have "table_bitrate (if b then BR30 else BR60) x = Inl IndexError" for b
  proof (rule table_bitrate_above)
    show "sorted (keys (if b then BR30 else BR60))"
      using sorted_selected[of b] by (simp add: strict_sorted_iff)
    show "k < x" if "k \<in> set (keys (if b then BR30 else BR60))" for k
      using that assms(3) by (cases b) (auto simp: BR30_def BR60_def keys_def)
  qed
  then show ?thesis
    by (simp add: video_bitrate_lookup[OF assms(1,2)] bind_err_def)
qed

text \<open>
  At 2161 lines and 30 frames per second, and at 3000 lines and 60 frames per second.
\<close>

theorem video_bitrate_above_table_witness:
  "\<not> truthy_int (video_kbps (camera_plan\<lparr>res := Some [PyStr ''3840'', PyStr ''2161'']\<rparr>)) \<and>
   video_height (camera_plan\<lparr>res := Some [PyStr ''3840'', PyStr ''2161'']\<rparr>) = Inr 2161 \<and>
   (2160::int) < 2161 \<and>
   video_bitrate (camera_plan\<lparr>res := Some [PyStr ''3840'', PyStr ''2161'']\<rparr>) =
     Inl IndexError \<and>
   video_height (file_plan\<lparr>res := Some [PyInt 4000, PyInt 3000]\<rparr>) = Inr 3000 \<and>
   \<not> low_fps (fps (file_plan\<lparr>res := Some [PyInt 4000, PyInt 3000]\<rparr>)) \<and>
   video_bitrate (file_plan\<lparr>res := Some [PyInt 4000, PyInt 3000]\<rparr>) = Inl IndexError"
proof -
  have a: "\<not> truthy_int (video_kbps (camera_plan\<lparr>res := Some [PyStr ''3840'', PyStr ''2161'']\<rparr>))"
    "\<not> truthy_int (video_kbps (file_plan\<lparr>res := Some [PyInt 4000, PyInt 3000]\<rparr>))"
    by (simp_all add: file_plan_def camera_plan_def truthy_int_def)
  have h: "video_height (file_plan\<lparr>res := Some [PyInt 4000, PyInt 3000]\<rparr>) = Inr 3000"
    by (simp add: video_height_def getitem_def)
  have f: "\<not> low_fps (fps (file_plan\<lparr>res := Some [PyInt 4000, PyInt 3000]\<rparr>))"
    by (simp add: file_plan_def low_fps_def)
  show ?thesis
    using video_bitrate_above_table[OF a(1) height_2161] video_bitrate_above_table[OF a(2) h]
      a(1) height_2161 h f
    by simp
qed

text \<open>
  Claim C3. For a plan without an override and with height \<open>x\<close>: when the frame rate is
  unset or at most 30 the selection is the lookup of \<open>x\<close> in the low-rate table, when the
  frame rate is above 30 it is the lookup in the high-rate table; at 60 frames per second
  and 1080 lines the result is 4500.
\<close>

theorem video_bitrate_table_by_fps:
  assumes "\<not> truthy_int (video_kbps s)" and "video_height s = Inr x"
  shows "(fps s = None \<or> (\<exists>f. fps s = Some f \<and> num_val f \<le> 30) \<longrightarrow>
            video_bitrate s =
              bind_err (table_bitrate BR30 x) (\<lambda>v. Inr (s\<lparr>video_kbps := Some v\<rparr>))) \<and>
         ((\<exists>f. fps s = Some f \<and> 30 < num_val f) \<longrightarrow>
            video_bitrate s =
              bind_err (table_bitrate BR60 x) (\<lambda>v. Inr (s\<lparr>video_kbps := Some v\<rparr>))) \<and>
         ((\<exists>f. fps s = Some f \<and> num_val f = 60) \<and> x = 1080 \<longrightarrow>
            video_bitrate s = Inr (s\<lparr>video_kbps := Some 4500\<rparr>))"
proof -
  have le: "le_30 f = (num_val f \<le> 30)" for f
    by (cases f) simp_all
  have low: "low_fps (fps s) = (fps s = None \<or> (\<exists>f. fps s = Some f \<and> num_val f \<le> 30))"
    by (cases "fps s") (simp_all add: low_fps_def le)
  have "table_bitrate BR60 1080 = Inr 4500"
    using table_bitrate_exact[OF sorted_BR60, of 1080 4500] by (simp add: BR60_def)
  then show ?thesis
    using video_bitrate_lookup[OF assms] low by (auto simp: bind_err_def)
qed

text \<open>
  The sample file plan (1080 lines) gets 4500 at 60 frames per second, and 3000 at 30
  frames per second and with no frame rate.
\<close>

theorem video_bitrate_table_by_fps_witness:
  "\<not> truthy_int (video_kbps file_plan) \<and> video_height file_plan = Inr 1080 \<and>
   fps file_plan = Some (FloatNum 60) \<and> num_val (FloatNum 60) = 60 \<and>
   video_bitrate file_plan = Inr (file_plan\<lparr>video_kbps := Some 4500\<rparr>) \<and>
   video_bitrate (file_plan\<lparr>fps := Some (IntNum 30)\<rparr>) =
     Inr (file_plan\<lparr>fps := Some (IntNum 30), video_kbps := Some 3000\<rparr>) \<and>
   video_bitrate (file_plan\<lparr>fps := None\<rparr>) =
     Inr (file_plan\<lparr>fps := None, video_kbps := Some 3000\<rparr>)"
proof -
  have a: "\<not> truthy_int (video_kbps file_plan)"
    "\<not> truthy_int (video_kbps (file_plan\<lparr>fps := Some (IntNum 30)\<rparr>))"
    "\<not> truthy_int (video_kbps (file_plan\<lparr>fps := None\<rparr>))"
    by (simp_all add: file_plan_def camera_plan_def truthy_int_def)
  have h: "video_height (file_plan\<lparr>fps := Some (IntNum 30)\<rparr>) = Inr 1080"
    "video_height (file_plan\<lparr>fps := None\<rparr>) = Inr 1080"
    by code_simp+
  have f: "fps file_plan = Some (FloatNum 60)"
    by (simp add: file_plan_def)
  have t: "table_bitrate BR30 1080 = Inr 3000"
    using table_bitrate_exact[OF sorted_BR30, of 1080 3000] by (simp add: BR30_def)
  have 1: "video_bitrate file_plan = Inr (file_plan\<lparr>video_kbps := Some 4500\<rparr>)"
    using video_bitrate_table_by_fps[OF a(1) height_1080, THEN conjunct2, THEN conjunct2] f
    by simp
  have 2: "video_bitrate (file_plan\<lparr>fps := Some (IntNum 30)\<rparr>) =
             Inr (file_plan\<lparr>fps := Some (IntNum 30), video_kbps := Some 3000\<rparr>)"
    using video_bitrate_table_by_fps[OF a(2) h(1), THEN conjunct1] t
    by (simp add: bind_err_def file_plan_def)
  have 3: "video_bitrate (file_plan\<lparr>fps := None\<rparr>) =
             Inr (file_plan\<lparr>fps := None, video_kbps := Some 3000\<rparr>)"
    using video_bitrate_table_by_fps[OF a(3) h(2), THEN conjunct1] t
    by (simp add: bind_err_def)
  show ?thesis
    using 1 2 3 a(1) height_1080 f by simp
qed

text \<open>
  What \<^verbatim>\<open>osparam\<close> stores as \<open>video_kbps\<close> is what \<^verbatim>\<open>getint\<close> reads from the site's section.
\<close>

lemma osparam_video_kbps:
  assumes "osparam h a = Inr s" "ini_files h (ini a) = Some (Inr C)"
  shows "cfg_getint_fallback C (site a) ''video_kbps'' = Inr (video_kbps s)"
  using assms
  by (auto simp: osparam_def bind_err_def Stream_args.defs Stream.defs
           split: option.splits sum.splits if_splits prod.splits)

lemma osparam_facebook:
  "osparam sample_host (sample_args ''facebook'' ''camera'') =
     Inr (camera_plan\<lparr>site := ''facebook'', video_kbps := Some 2500\<rparr>)"
  by code_simp

text \<open>
  Claim C4, amended. When the site's section supplies a video bitrate \<open>k\<close> other than
  zero, the plan \<^verbatim>\<open>osparam\<close> builds carries \<open>k\<close>, and the selection step returns the plan
  as it is, whatever its resolution and frame rate.
\<close>

theorem video_bitrate_keeps_override:
  assumes "osparam h a = Inr s" and "ini_files h (ini a) = Some (Inr C)"
    and "cfg_getint_fallback C (site a) ''video_kbps'' = Inr (Some k)" and "k \<noteq> 0"
  shows "video_kbps s = Some k \<and>
         (\<forall>r f. video_bitrate (s\<lparr>res := r, fps := f\<rparr>) = Inr (s\<lparr>res := r, fps := f\<rparr>))"
proof -
  have "video_kbps s = Some k"
    using osparam_video_kbps[OF assms(1,2)] assms(3) by simp
  then show ?thesis using assms(4) by (simp add: video_bitrate_def truthy_int_def)
qed

text \<open>
  The site \<open>facebook\<close> fixes 2500: it stays 2500 at 2160 lines and 60 frames per second.
\<close>

theorem video_bitrate_keeps_override_witness:
  "osparam sample_host (sample_args ''facebook'' ''camera'') =
     Inr (camera_plan\<lparr>site := ''facebook'', video_kbps := Some 2500\<rparr>) \<and>
   ini_files sample_host (ini (sample_args ''facebook'' ''camera'')) = Some (Inr sample_ini) \<and>
   cfg_getint_fallback sample_ini (site (sample_args ''facebook'' ''camera'')) ''video_kbps'' =
     Inr (Some 2500) \<and> (2500::int) \<noteq> 0 \<and>
   video_bitrate (camera_plan\<lparr>site := ''facebook'', video_kbps := Some 2500,
                    res := Some [PyStr ''3840'', PyStr ''2160''], fps := Some (IntNum 60)\<rparr>) =
     Inr (camera_plan\<lparr>site := ''facebook'', video_kbps := Some 2500,
            res := Some [PyStr ''3840'', PyStr ''2160''], fps := Some (IntNum 60)\<rparr>)"
proof -
  have i: "ini_files sample_host (ini (sample_args ''facebook'' ''camera'')) = Some (Inr sample_ini)"
    by (simp add: sample_host_def sample_args_def)
  have g: "cfg_getint_fallback sample_ini (site (sample_args ''facebook'' ''camera'')) ''video_kbps'' =
     Inr (Some 2500)"
    by code_simp
  have n: "(2500::int) \<noteq> 0" by simp
  show ?thesis
    using video_bitrate_keeps_override[OF osparam_facebook i g n] osparam_facebook i g
    by simp
qed

text \<open>
  Claim C4 as stated fails for the override \<open>0\<close>, which the test \<^verbatim>\<open>if self.video_kbps\<close>
  takes for no override: the site \<open>periscope\<close> writes \<^verbatim>\<open>video_kbps = 0\<close>, and the selection
  replaces the 0 by the table's 1800.
\<close>

theorem video_bitrate_zero_override_counterexample:
  "cfg_getint_fallback sample_ini ''periscope'' ''video_kbps'' = Inr (Some 0) \<and>
   osparam sample_host (sample_args ''periscope'' ''camera'') =
     Inr (camera_plan\<lparr>site := ''periscope'', video_kbps := Some 0\<rparr>) \<and>
   video_bitrate (camera_plan\<lparr>site := ''periscope'', video_kbps := Some 0\<rparr>) =
     Inr (camera_plan\<lparr>site := ''periscope'', video_kbps := Some 1800\<rparr>)"
  by code_simp

lemma table_bitrate_in_values: "table_bitrate T x = Inr v \<Longrightarrow> v \<in> set (values_of T)"
  by (auto simp: table_bitrate_def getitem_def split: if_splits)

lemma table_values_positive:
  "v \<in> set (values_of (if b then BR30 else BR60)) \<Longrightarrow> 0 < v"
  by (auto simp: values_of_def BR30_def BR60_def split: if_splits)

text \<open>
  Claim C10. When the selection step succeeds, running it again on its result changes
  nothing; and a bitrate it filled in from a table is positive.
\<close>

theorem video_bitrate_idempotent:
  assumes "video_bitrate s = Inr s'"
  shows "video_bitrate s' = Inr s' \<and>
         (\<not> truthy_int (video_kbps s) \<longrightarrow> (\<exists>k>0. video_kbps s' = Some k))"
proof (cases "truthy_int (video_kbps s)")
  case True
  with assms have "s' = s" by (simp add: video_bitrate_def)
  with True show ?thesis by (simp add: video_bitrate_def)
next
  case False
  from assms False obtain x where x: "video_height s = Inr x"
    by (cases "video_height s") (simp_all add: video_bitrate_def)
  from assms obtain v where v: "table_bitrate (if low_fps (fps s) then BR30 else BR60) x = Inr v"
    and s': "s' = s\<lparr>video_kbps := Some v\<rparr>"
    unfolding video_bitrate_lookup[OF False x]
    by (cases "table_bitrate (if low_fps (fps s) then BR30 else BR60) x")
       (auto simp: bind_err_def)
  have "0 < v" using table_values_positive[OF table_bitrate_in_values[OF v]] .
  then show ?thesis using s' False by (simp add: video_bitrate_def truthy_int_def)
qed

text \<open>
  The sample camera plan: the first run fills in 1800, the second returns the same plan.
\<close>

theorem video_bitrate_idempotent_witness:
  "video_bitrate camera_plan = Inr (camera_plan\<lparr>video_kbps := Some 1800\<rparr>) \<and>
   \<not> truthy_int (video_kbps camera_plan) \<and>
   video_bitrate (camera_plan\<lparr>video_kbps := Some 1800\<rparr>) =
     Inr (camera_plan\<lparr>video_kbps := Some 1800\<rparr>)"
proof -
  have r: "video_bitrate camera_plan = Inr (camera_plan\<lparr>video_kbps := Some 1800\<rparr>)"
    by code_simp
  have "\<not> truthy_int (video_kbps camera_plan)"
    by (simp add: camera_plan_def truthy_int_def)
  then show ?thesis using video_bitrate_idempotent[OF r] r by simp
qed

subsection \<open>Audio input\<close>

text \<open>
  Claim C5. A field is set when it is present and not empty (Python's truth value). With
  audio bitrate, capture format \<open>f\<close> and channel \<open>c\<close> all set and a source other than a
  file, the audio input is exactly \<^verbatim>\<open>-f\<close>, \<open>f\<close>, \<^verbatim>\<open>-i\<close>, \<open>c\<close>; with any of the three
  unset, or with a file source, it is empty.
\<close>

theorem audiostream_tokens:
  "(audio_bps s \<noteq> [] \<and> acap s = Some f \<and> f \<noteq> [] \<and> audiochan s = Some c \<and> c \<noteq> [] \<and>
    vidsource s \<noteq> ''file'' \<longrightarrow> audiostream s = [''-f'', f, ''-i'', c]) \<and>
   (audio_bps s = [] \<or> acap s = None \<or> acap s = Some [] \<or> audiochan s = None \<or>
    audiochan s = Some [] \<or> vidsource s = ''file'' \<longrightarrow> audiostream s = [])"
  by (auto simp: audiostream_def no_audio_def truthy_str_def)

text \<open>
  The sample camera plan records from PulseAudio; dropping any field, or reading from a
  file, silences it.
\<close>

theorem audiostream_tokens_witness:
  "audio_bps camera_plan \<noteq> [] \<and> acap camera_plan = Some ''pulse'' \<and>
   audiochan camera_plan = Some ''default'' \<and> vidsource camera_plan \<noteq> ''file'' \<and>
   audiostream camera_plan = [''-f'', ''pulse'', ''-i'', ''default''] \<and>
   audiostream (camera_plan\<lparr>acap := None\<rparr>) = [] \<and>
   audiostream (camera_plan\<lparr>audio_bps := []\<rparr>) = [] \<and>
   audiostream (camera_plan\<lparr>audiochan := Some []\<rparr>) = [] \<and>
   vidsource file_plan = ''file'' \<and> audiostream file_plan = []"
  using audiostream_tokens[of camera_plan "''pulse''" "''default''"]
    audiostream_tokens[of "camera_plan\<lparr>acap := None\<rparr>"]
    audiostream_tokens[of "camera_plan\<lparr>audio_bps := []\<rparr>"]
    audiostream_tokens[of "camera_plan\<lparr>audiochan := Some []\<rparr>"]
    audiostream_tokens[of file_plan]
  by (simp add: camera_plan_def file_plan_def)

subsection \<open>Network buffer\<close>

text \<open>
  Claim C6. With a still image the buffer fragment holds \<^verbatim>\<open>-shortest\<close> and neither
  \<^verbatim>\<open>-maxrate\<close> nor \<^verbatim>\<open>-bufsize\<close>. Without one, and with the bitrate resolved to \<open>k\<close>, it
  holds \<^verbatim>\<open>-maxrate\<close> with \<open>k\<close> and \<^verbatim>\<open>-bufsize\<close> with \<open>2k\<close>, each followed by the letter k.
\<close>

theorem buffer_rate_flags:
  "(image_path s \<noteq> None \<longrightarrow>
      (\<exists>buf. buffer s srv = Inr buf \<and> ''-shortest'' \<in> set buf \<and>
             ''-maxrate'' \<notin> set buf \<and> ''-bufsize'' \<notin> set buf)) \<and>
   (image_path s = None \<and> video_kbps s = Some k \<longrightarrow>
      buffer s srv =
        Inr [''-threads'', ''0'', ''-maxrate'', str_int k @ ''k'',
             ''-bufsize'', str_int (2 * k) @ ''k'', ''-f'',
             (if srv = ''-'' then ''null'' else ''flv'')])"
  by (auto simp: buffer_def bind_err_def truthy_path_def)

lemma str_int_3000: "str_int 3000 = ''3000''" "str_int 6000 = ''6000''"
  by (simp_all add: str_int_def str_nat.simps digit_char_def)

text \<open>
  With 3000 kbps the flags are 3000k and 6000k.
\<close>

theorem buffer_rate_flags_witness:
  "image_path (camera_plan\<lparr>image_path := Some ''logo.png''\<rparr>) \<noteq> None \<and>
   buffer (camera_plan\<lparr>image_path := Some ''logo.png''\<rparr>) ''rtmp://a'' =
     Inr [''-threads'', ''0'', ''-shortest'', ''-f'', ''flv''] \<and>
   image_path (camera_plan\<lparr>video_kbps := Some 3000\<rparr>) = None \<and>
   video_kbps (camera_plan\<lparr>video_kbps := Some 3000\<rparr>) = Some 3000 \<and>
   buffer (camera_plan\<lparr>video_kbps := Some 3000\<rparr>) ''rtmp://a'' =
     Inr [''-threads'', ''0'', ''-maxrate'', ''3000k'', ''-bufsize'', ''6000k'', ''-f'', ''flv'']"
proof -
  have a: "image_path (camera_plan\<lparr>image_path := Some ''logo.png''\<rparr>) \<noteq> None"
    "image_path (camera_plan\<lparr>video_kbps := Some 3000\<rparr>) = None"
    "video_kbps (camera_plan\<lparr>video_kbps := Some 3000\<rparr>) = Some 3000"
    by (simp_all add: camera_plan_def)
  have still: "buffer (camera_plan\<lparr>image_path := Some ''logo.png''\<rparr>) ''rtmp://a'' =
     Inr [''-threads'', ''0'', ''-shortest'', ''-f'', ''flv'']"
    by (simp add: buffer_def bind_err_def truthy_path_def camera_plan_def)
  have "buffer (camera_plan\<lparr>video_kbps := Some 3000\<rparr>) ''rtmp://a'' =
     Inr [''-threads'', ''0'', ''-maxrate'', ''3000k'', ''-bufsize'', ''6000k'', ''-f'', ''flv'']"
    using buffer_rate_flags[of "camera_plan\<lparr>video_kbps := Some 3000\<rparr>" "''rtmp://a''" 3000] a
    by (simp add: str_int_3000)
  moreover have "\<exists>buf. buffer (camera_plan\<lparr>image_path := Some ''logo.png''\<rparr>) ''rtmp://a'' = Inr buf \<and>
       ''-shortest'' \<in> set buf \<and> ''-maxrate'' \<notin> set buf \<and> ''-bufsize'' \<notin> set buf"
    using buffer_rate_flags[of "camera_plan\<lparr>image_path := Some ''logo.png''\<rparr>" "''rtmp://a''"] a
    by simp
  ultimately show ?thesis using a still by simp
qed

subsection \<open>File input\<close>

text \<open>
  Claim C8. Take a plan that loops a file \<open>p\<close> and has no still image, on a host where the
  home directory expansion of \<open>p\<close> succeeds with the path \<open>fn\<close>. Its input fragment is
  \<^verbatim>\<open>-re\<close>, then \<^verbatim>\<open>-stream_loop -1\<close>, then \<^verbatim>\<open>-i\<close> and \<open>fn\<close> as the last token. For a file
  source whose keyframe interval converts to a float, this is the first fragment of
  \<^verbatim>\<open>videostream\<close>.
\<close>

theorem filein_loop_order:
  assumes "loop s" and "image_path s = None" and "infn s = Some p"
    and "expanduser h p = Inr fn"
  shows "filein h s = Inr [''-re'', ''-stream_loop'', ''-1'', ''-i'', fn] \<and>
         last [''-re'', ''-stream_loop'', ''-1'', ''-i'', fn] = fn \<and>
         (vidsource s = ''file'' \<and> \<not> float_overflow (keyframe_sec s) \<longrightarrow>
            map_sum id fst (videostream h s) =
              Inr [''-re'', ''-stream_loop'', ''-1'', ''-i'', fn])"
proof -
  have f: "filein h s = Inr [''-re'', ''-stream_loop'', ''-1'', ''-i'', fn]"
    using assms by (simp add: filein_def truthy_path_def bind_err_def)
  have t: "\<exists>g. times_num (keyframe_sec s) n = Inr g" if "\<not> float_overflow (keyframe_sec s)" for n
    using that by (cases n) simp_all
  have "map_sum id fst (videostream h s) = Inr [''-re'', ''-stream_loop'', ''-1'', ''-i'', fn]"
    if src: "vidsource s = ''file''" and conv: "\<not> float_overflow (keyframe_sec s)"
  proof -
    obtain g where "times_num (keyframe_sec s)
        (case fps s of None \<Rightarrow> FloatNum 30 | Some f \<Rightarrow> f) = Inr g"
      using t[OF conv] by blast
    then show ?thesis
      using src f assms(2) by (simp add: videostream_def truthy_path_def bind_err_def)
  qed
  with f show ?thesis by simp
qed

text \<open>
  The sample file plan, whose path \<^verbatim>\<open>~/clip.mp4\<close> expands to \<^verbatim>\<open>/home/user/clip.mp4\<close>.
\<close>

theorem filein_loop_order_witness:
  "loop file_plan \<and> image_path file_plan = None \<and> infn file_plan = Some ''~/clip.mp4'' \<and>
   expanduser sample_host ''~/clip.mp4'' = Inr ''/home/user/clip.mp4'' \<and>
   vidsource file_plan = ''file'' \<and> \<not> float_overflow (keyframe_sec file_plan) \<and>
   filein sample_host file_plan =
     Inr [''-re'', ''-stream_loop'', ''-1'', ''-i'', ''/home/user/clip.mp4''] \<and>
   map_sum id fst (videostream sample_host file_plan) =
     Inr [''-re'', ''-stream_loop'', ''-1'', ''-i'', ''/home/user/clip.mp4'']"
proof -
  have a: "loop file_plan" "image_path file_plan = None" "infn file_plan = Some ''~/clip.mp4''"
    "vidsource file_plan = ''file''"
    by (simp_all add: file_plan_def camera_plan_def)
  have e: "expanduser sample_host ''~/clip.mp4'' = Inr ''/home/user/clip.mp4''"
    by (simp add: sample_host_def)
  have k: "\<not> float_overflow (keyframe_sec file_plan)"
    by (simp add: file_plan_def camera_plan_def float_overflow_def)
  show ?thesis
    using filein_loop_order[OF a(1,2,3) e] a e k by simp
qed

subsection \<open>Unknown source kinds\<close>

text \<open>
  Claim C9. For a source kind other than camera, screen and file, \<^verbatim>\<open>osparam\<close> raises and
  builds no plan: the \<^verbatim>\<open>ValueError\<close> of its dispatch once the file, the site's section and
  the executable are found, an earlier exception otherwise. \<^verbatim>\<open>videostream\<close> raises
  \<^verbatim>\<open>ValueError\<close> at its first statement and returns no fragment.
\<close>

theorem unknown_source_fatal:
  assumes "vidsource a \<notin> {''camera'', ''screen'', ''file''}" and "vidsource s = vidsource a"
  shows "(\<exists>e. osparam h a = Inl e) \<and>
         (\<forall>C ep. ini_files h (ini a) = Some (Inr C) \<and> C (site a) \<noteq> None \<and>
            getexe h (case cfg_get_fallback C (platform h) ''exe'' of
                        None \<Rightarrow> ''ffmpeg'' | Some v \<Rightarrow> v) = Inr ep \<longrightarrow>
            osparam h a = Inl (ValueError (''unknown video source '' @ vidsource a))) \<and>
         videostream h s = Inl (ValueError (''unknown vidsource '' @ vidsource a))"
proof -
  have sp: "source_param h C a pr = Inl (ValueError (''unknown video source '' @ vidsource a))"
    for C pr
    using assms(1) by (simp add: source_param_def)
  have "\<exists>e. osparam h a = Inl e"
    by (auto simp: osparam_def bind_err_def sp split: option.splits sum.splits prod.splits)
  moreover have "osparam h a = Inl (ValueError (''unknown video source '' @ vidsource a))"
    if "ini_files h (ini a) = Some (Inr C)" "C (site a) \<noteq> None"
      "getexe h (case cfg_get_fallback C (platform h) ''exe'' of
                        None \<Rightarrow> ''ffmpeg'' | Some v \<Rightarrow> v) = Inr ep" for C ep
    using that by (auto simp: osparam_def bind_err_def sp split: prod.splits)
  moreover have "videostream h s = Inl (ValueError (''unknown vidsource '' @ vidsource a))"
    using assms by (simp add: videostream_def bind_err_def)
  ultimately show ?thesis by blast
qed

text \<open>
  The source kind \<open>tv\<close> on the sample host.
\<close>

theorem unknown_source_fatal_witness:
  "vidsource (sample_args ''youtube'' ''tv'') \<notin> {''camera'', ''screen'', ''file''} \<and>
   vidsource (camera_plan\<lparr>vidsource := ''tv''\<rparr>) = vidsource (sample_args ''youtube'' ''tv'') \<and>
   osparam sample_host (sample_args ''youtube'' ''tv'') =
     Inl (ValueError ''unknown video source tv'') \<and>
   videostream sample_host (camera_plan\<lparr>vidsource := ''tv''\<rparr>) =
     Inl (ValueError ''unknown vidsource tv'')"
proof -
  have a: "vidsource (sample_args ''youtube'' ''tv'') \<notin> {''camera'', ''screen'', ''file''}"
    by (simp add: sample_args_def)
  have b: "vidsource (camera_plan\<lparr>vidsource := ''tv''\<rparr>) =
           vidsource (sample_args ''youtube'' ''tv'')"
    by (simp add: sample_args_def)
  have v: "vidsource (sample_args ''youtube'' ''tv'') = ''tv''"
    by (simp add: sample_args_def)
  have i: "ini_files sample_host (ini (sample_args ''youtube'' ''tv'')) = Some (Inr sample_ini)"
    by (simp add: sample_host_def sample_args_def)
  have c: "sample_ini (site (sample_args ''youtube'' ''tv'')) \<noteq> None"
    by (simp add: sample_ini_def sample_args_def)
  have g: "getexe sample_host (case cfg_get_fallback sample_ini (platform sample_host) ''exe'' of
             None \<Rightarrow> ''ffmpeg'' | Some v \<Rightarrow> v) = Inr (''ffmpeg'', ''ffprobe'')"
    by (simp add: sample_host_def sample_ini_def cfg_get_fallback_def)
  note u = unknown_source_fatal[OF a b, of sample_host]
  have 1: "osparam sample_host (sample_args ''youtube'' ''tv'') =
             Inl (ValueError ''unknown video source tv'')"
    using u[THEN conjunct2, THEN conjunct1, rule_format, of sample_ini "(''ffmpeg'', ''ffprobe'')"]
      i c g v
    by simp
  have 2: "videostream sample_host (camera_plan\<lparr>vidsource := ''tv''\<rparr>) =
             Inl (ValueError ''unknown vidsource tv'')"
    using u[THEN conjunct2, THEN conjunct2] v by simp
  show ?thesis using a b 1 2 by simp
qed

subsection \<open>The reconciler\<close>

text \<open>
  The loop of \<^verbatim>\<open>min\<close>: started at the leftmost minimum of the items seen so far, it ends
  at the leftmost minimum of all items.
\<close>

lemma min_from_leftmost:
  assumes "best < length pre" "\<forall>j<length pre. pre ! best \<le> pre ! j"
    "\<forall>j<best. pre ! best < pre ! j"
  shows "\<exists>r. min_from (map Some vs) (length pre) best (Some (pre ! best)) = Inr r \<and>
             r < length (pre @ vs) \<and>
             (\<forall>j<length (pre @ vs). (pre @ vs) ! r \<le> (pre @ vs) ! j) \<and>
             (\<forall>j<r. (pre @ vs) ! r < (pre @ vs) ! j)"
  using assms
proof (induction vs arbitrary: pre best)
  case Nil
  then show ?case by simp
next
  case (Cons v vs)
  let ?pre = "pre @ [v]"
  have app: "pre @ v # vs = ?pre @ vs" by simp
  have len: "length pre + 1 = length ?pre" by simp
  show ?case
  proof (cases "v < pre ! best")
    case True
    have b: "length pre < length ?pre" by simp
    have at: "?pre ! length pre = v" by simp
    have le: "\<forall>j<length ?pre. ?pre ! length pre \<le> ?pre ! j"
    proof (intro allI impI)
      fix j assume "j < length ?pre"
      then consider "j < length pre" | "j = length pre" by fastforce
      then show "?pre ! length pre \<le> ?pre ! j"
      proof cases
        case 1
        then have "pre ! best \<le> pre ! j" using Cons.prems(2) by simp
        with True 1 show ?thesis by (simp add: nth_append)
      next
        case 2
        then show ?thesis by simp
      qed
    qed
    have lt: "\<forall>j<length pre. ?pre ! length pre < ?pre ! j"
    proof (intro allI impI)
      fix j assume j: "j < length pre"
      then have "pre ! best \<le> pre ! j" using Cons.prems(2) by simp
      with True j show "?pre ! length pre < ?pre ! j" by (simp add: nth_append)
    qed
    have step: "min_from (map Some (v # vs)) (length pre) best (Some (pre ! best)) =
                min_from (map Some vs) (length ?pre) (length pre) (Some (?pre ! length pre))"
      using True by (simp add: bind_err_def)
    show ?thesis
      unfolding step app by (rule Cons.IH[OF b le lt])
  next
    case False
    have b: "best < length ?pre" using Cons.prems(1) by simp
    have at: "?pre ! best = pre ! best" using Cons.prems(1) by (simp add: nth_append)
    have le: "\<forall>j<length ?pre. ?pre ! best \<le> ?pre ! j"
    proof (intro allI impI)
      fix j assume "j < length ?pre"
      then consider "j < length pre" | "j = length pre" by fastforce
      then show "?pre ! best \<le> ?pre ! j"
      proof cases
        case 1
        then show ?thesis using Cons.prems(1,2) by (simp add: nth_append)
      next
        case 2
        then show ?thesis using False Cons.prems(1) by (simp add: nth_append)
      qed
    qed
    have lt: "\<forall>j<best. ?pre ! best < ?pre ! j"
      using Cons.prems(1,3) by (simp add: nth_append)
    have step: "min_from (map Some (v # vs)) (length pre) best (Some (pre ! best)) =
                min_from (map Some vs) (length ?pre) best (Some (?pre ! best))"
      using False at by (simp add: bind_err_def)
    show ?thesis
      unfolding step app by (rule Cons.IH[OF b le lt])
  qed
qed

text \<open>
  Claim C7. For plans whose bitrates \<open>bw\<close> are all resolved: the empty collection gives
  \<^verbatim>\<open>None\<close>; otherwise the result is an index \<open>i\<close> of the collection whose bitrate is minimal,
  and every plan before \<open>i\<close> has a strictly larger bitrate.
\<close>

theorem unify_streams_argmin:
  assumes "map video_kbps streams = map Some bw"
  shows "(streams = [] \<longrightarrow> unify_streams self streams = Inr None) \<and>
         (streams \<noteq> [] \<longrightarrow>
            (\<exists>i. unify_streams self streams = Inr (Some i) \<and> i < length bw \<and>
                 (\<forall>j<length bw. bw ! i \<le> bw ! j) \<and> (\<forall>j<i. bw ! i < bw ! j)))"
proof (cases bw)
  case Nil
  with assms show ?thesis by (simp add: unify_streams_def)
next
  case (Cons b bs)
  with assms have ne: "streams \<noteq> []" by auto
  from min_from_leftmost[of 0 "[b]" bs]
  obtain r where r: "min_from (map Some bs) 1 0 (Some b) = Inr r" "r < length bw"
    "\<forall>j<length bw. bw ! r \<le> bw ! j" "\<forall>j<r. bw ! r < bw ! j"
    using Cons by auto
  have "unify_streams self streams = Inr (Some r)"
    using ne assms Cons r(1) by (simp add: unify_streams_def bind_err_def)
  with r ne show ?thesis by blast
qed

text \<open>
  The bitrates 4500, 3000, 6000 give index 1, the tie 3000, 3000 gives index 0, and the
  empty collection gives \<^verbatim>\<open>None\<close>.
\<close>

theorem unify_streams_argmin_witness:
  "map video_kbps [camera_plan\<lparr>video_kbps := Some 4500\<rparr>, camera_plan\<lparr>video_kbps := Some 3000\<rparr>,
                   file_plan\<lparr>video_kbps := Some 6000\<rparr>] = map Some [4500, 3000, 6000] \<and>
   unify_streams () [camera_plan\<lparr>video_kbps := Some 4500\<rparr>, camera_plan\<lparr>video_kbps := Some 3000\<rparr>,
                     file_plan\<lparr>video_kbps := Some 6000\<rparr>] = Inr (Some 1) \<and>
   unify_streams () [camera_plan\<lparr>video_kbps := Some 3000\<rparr>, file_plan\<lparr>video_kbps := Some 3000\<rparr>] =
     Inr (Some 0) \<and>
   unify_streams () ([] :: Stream list) = Inr None"
proof -
  let ?a = "[camera_plan\<lparr>video_kbps := Some 4500\<rparr>, camera_plan\<lparr>video_kbps := Some 3000\<rparr>,
             file_plan\<lparr>video_kbps := Some 6000\<rparr>]"
  let ?b = "[camera_plan\<lparr>video_kbps := Some 3000\<rparr>, file_plan\<lparr>video_kbps := Some 3000\<rparr>]"
  have ha: "map video_kbps ?a = map Some [4500, 3000, 6000]"
    by (simp add: file_plan_def)
  have hb: "map video_kbps ?b = map Some [3000, 3000]"
    by (simp add: file_plan_def)
  have he: "map video_kbps ([] :: Stream list) = map Some []" by simp
  from unify_streams_argmin[OF ha, of "()"]
  obtain i where i: "unify_streams () ?a = Inr (Some i)" "i < 3"
    "\<forall>j<3. [4500, 3000, 6000 :: int] ! i \<le> [4500, 3000, 6000] ! j"
    by auto
  have "i = 1"
  proof -
    from i(2) consider "i = 0" | "i = 1" | "i = 2" by linarith
    then show ?thesis
    proof cases
      case 1
      with i(3)[rule_format, of 1] show ?thesis by simp
    next
      case 2
      then show ?thesis .
    next
      case 3
      with i(3)[rule_format, of 1] show ?thesis by simp
    qed
  qed
  with i(1) have 1: "unify_streams () ?a = Inr (Some 1)" by simp
  from unify_streams_argmin[OF hb, of "()"]
  obtain k where k: "unify_streams () ?b = Inr (Some k)" "k < 2"
    "\<forall>j<k. [3000, 3000 :: int] ! k < [3000, 3000] ! j"
    by auto
  have "k = 0"
  proof (rule ccontr)
    assume "k \<noteq> 0"
    with k(2) have "k = 1" by simp
    with k(3)[rule_format, of 0] show False by simp
  qed
  with k(1) have 2: "unify_streams () ?b = Inr (Some 0)" by simp
  have 3: "unify_streams () ([] :: Stream list) = Inr None"
    using unify_streams_argmin[OF he, of "()"] by simp
  show ?thesis using ha 1 2 3 by simp
qed

end
